theory Spec2Isabelle
  imports Complex_Main "HOL-Library.Log_Nat"
begin

section \<open>JavaScript values that reach the REST client\<close>

text \<open>
  The client is JavaScript. Only the values that its request data can hold are modelled:
  \<open>undefined\<close>, \<open>null\<close>, strings, arrays of strings and stream or buffer objects.
  An item handed to \<open>process\<close> is a string (a link or a path on disk), a stream of the
  caller, or the stream \<open>request(item)\<close> that fetches another item. (A \<open>Buffer\<close> item
  is left out: \<open>createFile\<close> calls \<open>file.on\<close>, which a buffer does not have.)
\<close>

datatype item = ItemString string | ItemStream | Request item

datatype jsv = Undefined | Null | Str string | Arr "string list" | Strm item

text \<open>
  A JavaScript number is an IEEE double. The numbers of the client that matter here are the
  polling timeouts, which are non-negative integers or \<open>Infinity\<close>. \<open>to_double\<close> rounds
  a non-negative integer to the nearest double, a tie going to the even mantissa, as the
  addition of two doubles does with its exact sum: up to \<open>2^53\<close> every integer is a
  double, above it only the 53 leading bits are kept, and a result that would need the
  exponent 1024 is \<open>Infinity\<close>.
\<close>

datatype number = Finite int | Infinity

fun num_le :: "number \<Rightarrow> number \<Rightarrow> bool" where
  "num_le (Finite a) (Finite b) = (a \<le> b)"
| "num_le x Infinity = True"
| "num_le Infinity (Finite b) = False"

fun num_less :: "number \<Rightarrow> number \<Rightarrow> bool" where
  "num_less (Finite a) (Finite b) = (a < b)"
| "num_less (Finite a) Infinity = True"
| "num_less Infinity x = False"

definition to_double :: "int \<Rightarrow> number" where
  "to_double x =
     (if x < 2 ^ 53 then Finite x
      else let e = nat (bitlen x - 53); q = x div 2 ^ e; r = x mod 2 ^ e;
               m = (if 2 ^ e < 2 * r \<or> (2 * r = 2 ^ e \<and> odd q) then q + 1 else q)
           in if 2 ^ 1024 \<le> m * 2 ^ e then Infinity else Finite (m * 2 ^ e))"

text \<open>JavaScript truthiness: an array and a stream are objects and so always truthy,
  the empty array included; the empty string is falsy.\<close>

fun truthy :: "jsv \<Rightarrow> bool" where
  "truthy Undefined = False"
| "truthy Null = False"
| "truthy (Str s) = (s \<noteq> [])"
| "truthy (Arr xs) = True"
| "truthy (Strm i) = True"

text \<open>\<open>Array.prototype.join(',')\<close> on an array of strings.\<close>

fun join :: "string list \<Rightarrow> string" where
  "join [] = []"
| "join [x] = x"
| "join (x # y # ys) = x @ '','' @ join (y # ys)"

text \<open>An object is an association list in insertion order. Assigning to a key that exists
  keeps its position, as a JavaScript object does.\<close>

type_synonym obj = "(string \<times> jsv) list"

fun get :: "obj \<Rightarrow> string \<Rightarrow> jsv" where
  "get [] k = Undefined"
| "get ((k', v) # d) k = (if k' = k then v else get d k)"

fun put :: "obj \<Rightarrow> string \<Rightarrow> jsv \<Rightarrow> obj" where
  "put [] k v = [(k, v)]"
| "put ((k', v') # d) k v = (if k' = k then (k, v) # d else (k', v') # put d k v)"

section \<open>lib/api/resources.js\<close>

text \<open>\<open>addSizes(data, options, name)\<close>: returns at once when \<open>options[name]\<close> is falsy,
  joins an array with commas, and stores the result under \<open>name\<close>.\<close>

definition addSizes :: "obj \<Rightarrow> obj \<Rightarrow> string \<Rightarrow> obj" where
  "addSizes data options name =
     (if \<not> truthy (get options name) then data
      else put data name
             (case get options name of Arr sizes \<Rightarrow> Str (join sizes) | sizes \<Rightarrow> sizes))"

text \<open>The data object that \<open>createFile\<close> and \<open>createLink\<close> hand to \<open>_request\<close>.\<close>

definition createFile_data :: "item \<Rightarrow> obj \<Rightarrow> obj" where
  "createFile_data file options =
     addSizes (addSizes [(''file'', Strm file)] options ''thumbnailSizes'') options
       ''imagePreviewSizes''"

definition createLink_data :: "string \<Rightarrow> obj \<Rightarrow> obj" where
  "createLink_data link options =
     addSizes (addSizes [(''link'', Str link)] options ''thumbnailSizes'') options
       ''imagePreviewSizes''"

section \<open>The connection settings\<close>

record api =
  auth :: "string option"
  host :: string
  port :: nat
  basePath :: string
  protocol :: string
  strictSSL :: "bool option"

definition DEFAULT_HOST :: string where "DEFAULT_HOST = ''embdr.io''"
definition DEFAULT_PORT :: nat where "DEFAULT_PORT = 80"
definition DEFAULT_PROTOCOL :: string where "DEFAULT_PROTOCOL = ''http''"
definition DEFAULT_BASE_PATH :: string where "DEFAULT_BASE_PATH = ''/api''"
definition DEFAULT_POLLING_INITIAL_TIMEOUT :: int where
  "DEFAULT_POLLING_INITIAL_TIMEOUT = 2000"

text \<open>
  \<open>String.prototype.toLowerCase\<close>. A string is written as its UTF-8 bytes. On a string of
  ASCII characters the letters \<open>A\<close> to \<open>Z\<close> are lowered and every other character is
  kept. A string with a character outside ASCII is lowered with the Unicode tables of the
  JavaScript engine, which are not part of the client: they are the parameter \<open>engine\<close>.
\<close>

definition ascii :: "char \<Rightarrow> bool" where
  "ascii c = ((of_char c :: nat) < 128)"

definition toLowerCase_char :: "char \<Rightarrow> char" where
  "toLowerCase_char c =
     (let n = (of_char c :: nat) in if 65 \<le> n \<and> n \<le> 90 then char_of (n + 32) else c)"

definition toLowerCase :: "(string \<Rightarrow> string) \<Rightarrow> string \<Rightarrow> string" where
  "toLowerCase engine s = (if list_all ascii s then map toLowerCase_char s else engine s)"

text \<open>\<open>new Buffer(s).toString('base64')\<close>.\<close>

definition b64_char :: "nat \<Rightarrow> char" where
  "b64_char n =
     (if n < 26 then char_of (65 + n)
      else if n < 52 then char_of (97 + (n - 26))
      else if n < 62 then char_of (48 + (n - 52))
      else if n = 62 then CHR ''+'' else CHR ''/'')"

fun base64 :: "nat list \<Rightarrow> string" where
  "base64 [] = []"
| "base64 [a] = [b64_char (a div 4), b64_char ((a mod 4) * 16), CHR ''='', CHR ''='']"
| "base64 [a, b] =
     [b64_char (a div 4), b64_char ((a mod 4) * 16 + b div 16), b64_char ((b mod 16) * 4),
      CHR ''='']"
| "base64 (a # b # c # bs) =
     [b64_char (a div 4), b64_char ((a mod 4) * 16 + b div 16),
      b64_char ((b mod 16) * 4 + c div 64), b64_char (c mod 64)] @ base64 bs"

definition toString_base64 :: "string \<Rightarrow> string" where
  "toString_base64 s = base64 (map of_char s)"

definition setApiField_host :: "string \<Rightarrow> api \<Rightarrow> api" where
  "setApiField_host v a = a\<lparr>host := v\<rparr>"

definition setPort :: "nat \<Rightarrow> api \<Rightarrow> api" where
  "setPort p a = a\<lparr>port := p\<rparr>"

definition setProtocol :: "(string \<Rightarrow> string) \<Rightarrow> string \<Rightarrow> api \<Rightarrow> api" where
  "setProtocol engine p a = a\<lparr>protocol := toLowerCase engine p\<rparr>"

definition setBasePath :: "(string \<Rightarrow> string) \<Rightarrow> string \<Rightarrow> api \<Rightarrow> api" where
  "setBasePath engine b a = a\<lparr>basePath := toLowerCase engine b\<rparr>"

definition setStrictSSL :: "bool \<Rightarrow> api \<Rightarrow> api" where
  "setStrictSSL s a = a\<lparr>strictSSL := Some s\<rparr>"

text \<open>\<open>setApiKey\<close> does nothing for a falsy key.\<close>

definition setApiKey :: "string \<Rightarrow> api \<Rightarrow> api" where
  "setApiKey key a =
     (if key = [] then a else a\<lparr>auth := Some (''Basic '' @ toString_base64 (key @ '':''))\<rparr>)"

text \<open>\<open>setHost(host, port, protocol)\<close>: the port and the protocol are optional and are set
  through their own setters when truthy (a port that is not 0, a protocol that is not empty).\<close>

definition setHost ::
  "(string \<Rightarrow> string) \<Rightarrow> string \<Rightarrow> nat option \<Rightarrow> string option \<Rightarrow> api \<Rightarrow> api" where
  "setHost engine h p pr a =
     (let a1 = setApiField_host h a;
          a2 = (case p of Some n \<Rightarrow> if n \<noteq> 0 then setPort n a1 else a1 | None \<Rightarrow> a1)
      in case pr of Some s \<Rightarrow> if s \<noteq> [] then setProtocol engine s a2 else a2 | None \<Rightarrow> a2)"

text \<open>The constructor: the defaults (no \<open>strictSSL\<close> entry), then \<open>setApiKey\<close>.\<close>

definition Embdr :: "string \<Rightarrow> api" where
  "Embdr key =
     setApiKey key
       \<lparr>auth = None, host = DEFAULT_HOST, port = DEFAULT_PORT, basePath = DEFAULT_BASE_PATH,
        protocol = DEFAULT_PROTOCOL, strictSSL = None\<rparr>"

section \<open>The request builder\<close>

text \<open>\<open>%d\<close> of \<open>util.format\<close> on a natural number.\<close>

fun format_d :: "nat \<Rightarrow> string" where
  "format_d n =
     (if n < 10 then [char_of (48 + n)] else format_d (n div 10) @ [char_of (48 + n mod 10)])"

definition request_url :: "api \<Rightarrow> string \<Rightarrow> string" where
  "request_url a path =
     protocol a @ ''://'' @ host a @ '':'' @ format_d (port a) @ basePath a @ path"

text \<open>The sanitising loop of \<open>_request\<close>: a \<open>null\<close> or \<open>undefined\<close> value is deleted;
  an array is compacted (its falsy elements dropped) and deleted when nothing is left;
  everything else, the empty string included, stays.\<close>

fun sanitize :: "obj \<Rightarrow> obj" where
  "sanitize [] = []"
| "sanitize ((k, Undefined) # d) = sanitize d"
| "sanitize ((k, Null) # d) = sanitize d"
| "sanitize ((k, Arr xs) # d) =
     (let ys = filter (\<lambda>x. x \<noteq> []) xs in if ys = [] then sanitize d else (k, Arr ys) # sanitize d)"
| "sanitize ((k, v) # d) = (k, v) # sanitize d"

fun is_binary :: "jsv \<Rightarrow> bool" where
  "is_binary (Strm i) = True"
| "is_binary v = False"

record http_request =
  url :: string
  req_method :: string
  headers_Authorization :: "string option"
  req_strictSSL :: "bool option"
  qs :: "obj option"
  form :: "obj option"
  parts :: "obj option"

text \<open>
  \<open>api_request\<close> is \<open>_request(method, path, data, callback)\<close> up to the point where the
  request is handed to the HTTP library; what the library answers comes back as an input
  of \<open>step\<close> below, in the form in which \<open>_request\<close> passes it to its callback (an error
  object or the parsed body). A GET carries its data as the query string; a POST without a stream is
  URL-encoded from \<open>options.form = data\<close>; a POST with a stream is multipart and appends
  only the parts whose name and value are both truthy. The order in which the multipart
  parts are appended is not modelled.
\<close>

definition multipart_parts :: "obj \<Rightarrow> obj" where
  "multipart_parts d = filter (\<lambda>(k, v). k \<noteq> [] \<and> truthy v) d"

definition api_request :: "api \<Rightarrow> string \<Rightarrow> string \<Rightarrow> obj \<Rightarrow> http_request" where
  "api_request a meth path data0 =
     (let data = sanitize data0;
          isMultipart = (data \<noteq> [] \<and> meth \<noteq> ''GET'' \<and> list_ex (\<lambda>(k, v). is_binary v) data)
      in \<lparr>url = request_url a path, req_method = meth, headers_Authorization = auth a,
          req_strictSSL = strictSSL a,
          qs = (if data \<noteq> [] \<and> meth = ''GET'' then Some data else None),
          form = (if data \<noteq> [] \<and> meth \<noteq> ''GET'' \<and> \<not> isMultipart then Some data else None),
          parts = (if isMultipart then Some (multipart_parts data) else None)\<rparr>)"

text \<open>The fields of a request that reach the server, whatever the encoding.\<close>

definition sent_fields :: "http_request \<Rightarrow> obj" where
  "sent_fields r =
     (case qs r of Some d \<Rightarrow> d | None \<Rightarrow>
        (case form r of Some d \<Rightarrow> d | None \<Rightarrow> (case parts r of Some d \<Rightarrow> d | None \<Rightarrow> [])))"

section \<open>What the server returns and what the caller is told\<close>

record processor =
  job_status :: string

record resource =
  res_id :: string
  status :: string
  thumbnails :: "processor list"
  images :: "processor list"

text \<open>An error object as \<open>_request\<close> and \<open>createFile\<close> build it; \<open>code\<close> is absent from
  the errors that \<open>createFile\<close> makes itself.\<close>

record err =
  code :: "int option"
  message :: string

text \<open>A callback of the options object: not given, a function of the caller, or the empty
  function that \<open>process\<close> puts in its place.\<close>

datatype cb = Unset | UserFn | Noop

record process_options =
  opt_start :: cb
  opt_error :: cb
  opt_complete :: cb
  images_complete :: cb
  thumbnails_complete :: cb
  images_sizes :: jsv
  thumbnails_sizes :: jsv

text \<open>The keys of the \<open>callbacks\<close> object.\<close>

datatype slot = Start | Error | Complete | Images | Thumbnails

datatype arg = AErr err | ARes resource | AJobs "processor list"

text \<open>
  What a run of the client does that can be seen from outside, in order. \<open>Notify i s a\<close>
  is the evaluation of \<open>callbacks.s(a)\<close>, the wrapper made by \<open>_.once\<close>, in invocation
  \<open>i\<close> of \<open>process\<close>; \<open>Invoke i s a\<close> is the wrapper running the function of the options
  object under it. \<open>SetTimeout i t\<close> is the call \<open>setTimeout(poll, t)\<close>, with the number
  that the client passes (what the runtime does with it is not the client's).
  \<open>Uncaught i\<close> is an exception that leaves the creation callback of invocation \<open>i\<close>.
\<close>

datatype event =
    Http nat http_request
  | SetTimeout nat number
  | Notify nat slot arg
  | Invoke nat slot arg
  | Uncaught nat

datatype phase = NoPoll | TimerSet | Fetching

text \<open>
  The closure of one invocation of \<open>process\<close>: its item, its options object (after the
  defaults were written into it), \<open>hasPollingCallbacks\<close>, the state of the five \<open>_.once\<close>
  wrappers, \<open>pollingTimeout\<close> and the id of \<open>createdResource\<close>. \<open>awaiting\<close> holds while
  the POST has not been answered, \<open>listening\<close> once \<open>createFile\<close> has attached its error
  listener to the stream, and \<open>phase\<close> tells whether a timer or a GET is outstanding.
\<close>

record invocation =
  inv_item :: item
  inv_options :: process_options
  hasPollingCallbacks :: bool
  fired :: "slot \<Rightarrow> bool"
  awaiting :: bool
  listening :: bool
  createdResource_id :: string
  pollingTimeout :: number
  phase :: phase

text \<open>
  The client: its settings, the closures of the invocations of \<open>process\<close> made so far
  (a store from the number of the invocation to its closure, \<open>ninvs\<close> of them in use) and
  what it has done. \<open>request_throws\<close> is the part of the \<open>request\<close> library that the retry
  depends on: \<open>request(item)\<close> either returns a stream or throws (as it does for a string
  that is not a URI it can fetch), and which of the two is the library's to say.
\<close>

record sys =
  conf :: api
  request_throws :: "item \<Rightarrow> bool"
  ninvs :: nat
  invs :: "nat \<Rightarrow> invocation"
  trace :: "event list"

definition no_invocation :: invocation where
  "no_invocation =
     \<lparr>inv_item = ItemStream,
      inv_options = \<lparr>opt_start = Unset, opt_error = Unset, opt_complete = Unset,
                      images_complete = Unset, thumbnails_complete = Unset,
                      images_sizes = Undefined, thumbnails_sizes = Undefined\<rparr>,
      hasPollingCallbacks = False, fired = (\<lambda>s. False), awaiting = False, listening = False,
      createdResource_id = [], pollingTimeout = Finite 0, phase = NoPoll\<rparr>"

definition init :: "api \<Rightarrow> (item \<Rightarrow> bool) \<Rightarrow> sys" where
  "init a rt =
     \<lparr>conf = a, request_throws = rt, ninvs = 0, invs = (\<lambda>i. no_invocation), trace = []\<rparr>"

definition emit :: "event list \<Rightarrow> sys \<Rightarrow> sys" where
  "emit es st = st\<lparr>trace := trace st @ es\<rparr>"

definition upd :: "nat \<Rightarrow> (invocation \<Rightarrow> invocation) \<Rightarrow> sys \<Rightarrow> sys" where
  "upd i f st = st\<lparr>invs := (invs st)(i := f (invs st i))\<rparr>"

text \<open>\<open>callbacks.s(a)\<close>: \<open>_.once\<close> runs the function on the first call only.\<close>

definition callbacks :: "nat \<Rightarrow> slot \<Rightarrow> arg \<Rightarrow> sys \<Rightarrow> sys" where
  "callbacks i s a st =
     (if fired (invs st i) s then emit [Notify i s a] st
      else emit [Notify i s a, Invoke i s a] (upd i (\<lambda>v. v\<lparr>fired := (fired v)(s := True)\<rparr>) st))"

section \<open>process\<close>

definition cb_truthy :: "cb \<Rightarrow> bool" where
  "cb_truthy c = (c \<noteq> Unset)"

definition default_cb :: "cb \<Rightarrow> cb" where
  "default_cb c = (if cb_truthy c then c else Noop)"

definition default_callbacks :: "process_options \<Rightarrow> process_options" where
  "default_callbacks options =
     options\<lparr>opt_start := default_cb (opt_start options),
             opt_error := default_cb (opt_error options),
             opt_complete := default_cb (opt_complete options),
             images_complete := default_cb (images_complete options),
             thumbnails_complete := default_cb (thumbnails_complete options)\<rparr>"

text \<open>A string item is a link when it starts with \<open>http\<close>.\<close>

fun is_link :: "item \<Rightarrow> bool" where
  "is_link (ItemString s) = (take 4 s = ''http'')"
| "is_link it = False"

fun is_string :: "item \<Rightarrow> bool" where
  "is_string (ItemString s) = True"
| "is_string it = False"

fun the_string :: "item \<Rightarrow> string" where
  "the_string (ItemString s) = s"
| "the_string it = []"

definition createOptions :: "process_options \<Rightarrow> obj" where
  "createOptions options =
     [(''thumbnailSizes'', thumbnails_sizes options), (''imageSizes'', images_sizes options)]"

text \<open>Lines 72 to 96 of \<open>process\<close>: \<open>hasPollingCallbacks\<close> is read from the options as they
  come in, then the defaults are written and the five wrappers are made.\<close>

definition new_invocation :: "item \<Rightarrow> process_options \<Rightarrow> invocation" where
  "new_invocation it options =
     \<lparr>inv_item = it, inv_options = default_callbacks options,
      hasPollingCallbacks =
        (cb_truthy (opt_complete options) \<or> cb_truthy (images_complete options)
         \<or> cb_truthy (thumbnails_complete options)),
      fired = (\<lambda>s. False), awaiting = False, listening = False,
      createdResource_id = [], pollingTimeout = Finite 0, phase = NoPoll\<rparr>"

definition enter :: "item \<Rightarrow> process_options \<Rightarrow> sys \<Rightarrow> sys" where
  "enter it options st =
     st\<lparr>ninvs := Suc (ninvs st), invs := (invs st)(ninvs st := new_invocation it options)\<rparr>"

text \<open>\<open>createLink\<close>, and \<open>createFile\<close> from the point where it holds a stream: the error
  listener is attached and the POST goes out.\<close>

definition createLink :: "nat \<Rightarrow> string \<Rightarrow> obj \<Rightarrow> sys \<Rightarrow> sys" where
  "createLink i link options st =
     emit [Http i (api_request (conf st) ''POST'' ''/resources'' (createLink_data link options))]
       (upd i (\<lambda>v. v\<lparr>awaiting := True\<rparr>) st)"

definition createFile_stream :: "nat \<Rightarrow> item \<Rightarrow> obj \<Rightarrow> sys \<Rightarrow> sys" where
  "createFile_stream i file options st =
     emit [Http i (api_request (conf st) ''POST'' ''/resources'' (createFile_data file options))]
       (upd i (\<lambda>v. v\<lparr>awaiting := True, listening := True\<rparr>) st)"

text \<open>\<open>process\<close> on an item for which \<open>fs.createReadStream\<close> does not throw: a link, a
  stream, or a path that opens. The stream read from a path is written as the path item.\<close>

definition submit :: "item \<Rightarrow> process_options \<Rightarrow> sys \<Rightarrow> sys" where
  "submit it options st =
     (let i = ninvs st; st1 = enter it options st
      in if is_link it then createLink i (the_string it) (createOptions options) st1
         else createFile_stream i it (createOptions options) st1)"

section \<open>The polling loop\<close>

text \<open>\<open>Math.round\<close>: the nearest integer, a half going up.\<close>

definition Math_round :: "real \<Rightarrow> int" where
  "Math_round x = \<lfloor>x + 1 / 2\<rfloor>"

text \<open>\<open>pollingTimeout += Math.round(pollingTimeout / 4)\<close>: the quotient by 4 and its
  rounding are exact, the sum is rounded to a double.\<close>

fun backoff :: "number \<Rightarrow> number" where
  "backoff (Finite t) = to_double (t + Math_round (of_int t / 4))"
| "backoff Infinity = Infinity"

definition setTimeout_poll :: "nat \<Rightarrow> sys \<Rightarrow> sys" where
  "setTimeout_poll i st =
     emit [SetTimeout i (pollingTimeout (invs st i))] (upd i (\<lambda>v. v\<lparr>phase := TimerSet\<rparr>) st)"

text \<open>\<open>encodeURIComponent\<close> on the bytes of a string: letters, digits and
  \<open>- _ . ! ~ * ' ( )\<close> stay, every other byte becomes \<open>%XX\<close>.\<close>

definition unreserved :: "char \<Rightarrow> bool" where
  "unreserved c =
     (let n = (of_char c :: nat)
      in (48 \<le> n \<and> n \<le> 57) \<or> (65 \<le> n \<and> n \<le> 90) \<or> (97 \<le> n \<and> n \<le> 122)
         \<or> c \<in> set ''-_.!~*()'' \<or> n = 39)"

definition hex_digit :: "nat \<Rightarrow> char" where
  "hex_digit n = (if n < 10 then char_of (48 + n) else char_of (55 + n))"

definition encodeURIComponent :: "string \<Rightarrow> string" where
  "encodeURIComponent s =
     concat (map (\<lambda>c. if unreserved c then [c]
                       else [CHR ''%'', hex_digit (of_char c div 16), hex_digit (of_char c mod 16)])
                 s)"

text \<open>\<open>poll\<close> up to the answer of the server: \<open>resources.get\<close> sends a GET without
  data to the path of the created resource.\<close>

definition resources_get_path :: "string \<Rightarrow> string" where
  "resources_get_path rid = ''/resources/'' @ encodeURIComponent rid"

definition poll :: "nat \<Rightarrow> sys \<Rightarrow> sys" where
  "poll i st =
     emit [Http i (api_request (conf st) ''GET''
                     (resources_get_path (createdResource_id (invs st i))) [])]
       (upd i (\<lambda>v. v\<lparr>phase := Fetching\<rparr>) st)"

definition all_done :: "processor list \<Rightarrow> bool" where
  "all_done ps = (filter (\<lambda>p. job_status p = ''pending'') ps = [])"

definition poll_callback :: "nat \<Rightarrow> err + resource \<Rightarrow> sys \<Rightarrow> sys" where
  "poll_callback i r st =
     (case r of
        Inl e \<Rightarrow> callbacks i Error (AErr e) st
      | Inr resource \<Rightarrow>
          (let thumbnailsDone = all_done (thumbnails resource);
               st1 = (if thumbnailsDone then callbacks i Thumbnails (AJobs (thumbnails resource)) st
                      else st);
               imagesDone = all_done (images resource);
               st2 = (if imagesDone then callbacks i Thumbnails (AJobs (images resource)) st1
                      else st1)
           in if status resource \<noteq> ''pending'' then callbacks i Complete (ARes resource) st2
              else setTimeout_poll i
                     (upd i (\<lambda>v. v\<lparr>pollingTimeout := backoff (pollingTimeout v)\<rparr>) st2)))"

section \<open>The creation callback\<close>

definition link_unreachable :: "err \<Rightarrow> bool" where
  "link_unreachable e =
     (code e = Some 400
      \<and> message e = ''Unable to handle a link because it could not be reached'')"

text \<open>The retry is \<open>self.process(request(item), options)\<close> on the options object of this
  invocation, which holds the defaults by now. When \<open>request(item)\<close> throws, the exception
  leaves the callback and nothing else is done. Otherwise the item of the retry is a stream,
  so that \<open>process\<close> is \<open>submit\<close> on it.\<close>

definition creation_callback :: "nat \<Rightarrow> err + resource \<Rightarrow> sys \<Rightarrow> sys" where
  "creation_callback i r st =
     (case r of
        Inl createError \<Rightarrow>
          if link_unreachable createError
          then if request_throws st (inv_item (invs st i)) then emit [Uncaught i] st
               else submit (Request (inv_item (invs st i))) (inv_options (invs st i)) st
          else callbacks i Error (AErr createError) st
      | Inr createdResource \<Rightarrow>
          (let st1 = callbacks i Start (ARes createdResource) st
           in if status createdResource \<noteq> ''pending''
              then callbacks i Complete (ARes createdResource) st1
              else if \<not> hasPollingCallbacks (invs st1 i) then st1
              else setTimeout_poll i
                     (upd i (\<lambda>v. v\<lparr>createdResource_id := res_id createdResource,
                                   pollingTimeout := Finite DEFAULT_POLLING_INITIAL_TIMEOUT\<rparr>)
                     st1)))"

text \<open>\<open>process(item, options)\<close>. \<open>throws\<close> says whether \<open>fs.createReadStream\<close> throws on
  the path; it is read for a string item that is not a link only. When it throws, \<open>createFile\<close>
  calls the creation callback at once and no request is made.\<close>

definition open_error :: err where
  "open_error =
     \<lparr>code = None, message = ''A stream could not be opened for the provided path''\<rparr>"

definition process :: "bool \<Rightarrow> item \<Rightarrow> process_options \<Rightarrow> sys \<Rightarrow> sys" where
  "process throws it options st =
     (if is_string it \<and> \<not> is_link it \<and> throws
      then creation_callback (ninvs st) (Inl open_error) (enter it options st)
      else submit it options st)"

section \<open>What happens after \<open>process\<close> has returned\<close>

text \<open>
  The event loop delivers, to invocation \<open>i\<close>: the answer to its POST (once), an \<open>error\<close>
  event of its file stream, the firing of its timer, and the answer to its GET. An input
  that the invocation is not waiting for cannot occur and changes nothing.
\<close>

datatype input =
    CreateResponse nat "err + resource"
  | StreamError nat
  | TimerFires nat
  | PollResponse nat "err + resource"

definition stream_error :: err where
  "stream_error = \<lparr>code = None, message = ''An error occurred when reading from the stream''\<rparr>"

fun step :: "sys \<Rightarrow> input \<Rightarrow> sys" where
  "step st (CreateResponse i r) =
     (if i < ninvs st \<and> awaiting (invs st i)
      then creation_callback i r (upd i (\<lambda>v. v\<lparr>awaiting := False\<rparr>) st) else st)"
| "step st (StreamError i) =
     (if i < ninvs st \<and> listening (invs st i)
      then creation_callback i (Inl stream_error) st else st)"
| "step st (TimerFires i) =
     (if i < ninvs st \<and> phase (invs st i) = TimerSet then poll i st else st)"
| "step st (PollResponse i r) =
     (if i < ninvs st \<and> phase (invs st i) = Fetching
      then poll_callback i r (upd i (\<lambda>v. v\<lparr>phase := NoPoll\<rparr>) st) else st)"

definition run :: "sys \<Rightarrow> input list \<Rightarrow> sys" where
  "run st ins = foldl step st ins"

section \<open>Observations on a trace\<close>

text \<open>A poll shows in the trace as a timer being set or as a GET request.\<close>

fun is_poll :: "event \<Rightarrow> bool" where
  "is_poll (Http i r) = (req_method r = ''GET'')"
| "is_poll (SetTimeout i t) = True"
| "is_poll e = False"

fun is_invoke :: "event \<Rightarrow> bool" where
  "is_invoke (Invoke i s a) = True"
| "is_invoke e = False"

fun invoked :: "nat \<Rightarrow> slot \<Rightarrow> event \<Rightarrow> bool" where
  "invoked i s (Invoke j t a) = (j = i \<and> t = s)"
| "invoked i s e = False"

fun notified :: "nat \<Rightarrow> slot \<Rightarrow> event \<Rightarrow> bool" where
  "notified i s (Notify j t a) = (j = i \<and> t = s)"
| "notified i s e = False"





text \<open>Inputs that answer a POST with the error that starts the retry: any such answer, and
  such an answer to a retry.\<close>

fun unreachable_answer :: "input \<Rightarrow> bool" where
  "unreachable_answer (CreateResponse i (Inl e)) = link_unreachable e"
| "unreachable_answer inp = False"



text \<open>The POST requests of a trace: which invocation sent which fields.\<close>

fun posted :: "event list \<Rightarrow> (nat \<times> obj) list" where
  "posted [] = []"
| "posted (Http i r # es) =
     (if req_method r = ''POST'' then (i, sent_fields r) # posted es else posted es)"
| "posted (e # es) = posted es"

fun timeouts :: "event list \<Rightarrow> number list" where
  "timeouts [] = []"
| "timeouts (SetTimeout i t # es) = t # timeouts es"
| "timeouts (e # es) = timeouts es"

text \<open>The delay before the \<open>n\<close>-th poll, and a run of polls that all find the resource
  pending.\<close>

fun delay :: "nat \<Rightarrow> number" where
  "delay 0 = Finite DEFAULT_POLLING_INITIAL_TIMEOUT"
| "delay (Suc n) = backoff (delay n)"

definition pending_polls :: "nat \<Rightarrow> resource list \<Rightarrow> input list" where
  "pending_polls i rs = concat (map (\<lambda>r. [TimerFires i, PollResponse i (Inr r)]) rs)"

section \<open>Invariants of a run\<close>

text \<open>An invocation is settled when it waits neither for the answer to its POST nor for a
  timer or a GET.\<close>

definition settled :: "invocation \<Rightarrow> bool" where
  "settled v = (\<not> awaiting v \<and> phase v = NoPoll)"

text \<open>
  The invocations of one call form a chain of retries: only the last one can be waiting for
  anything, and an invocation that still waits for the answer to its POST has invoked
  neither \<open>start\<close> nor \<open>complete\<close> and nothing has polled so far.
\<close>

definition chain :: "sys \<Rightarrow> bool" where
  "chain st =
     ((\<forall>i. Suc i \<noteq> ninvs st \<longrightarrow> settled (invs st i))
      \<and> (\<forall>i. awaiting (invs st i) \<longrightarrow>
            phase (invs st i) = NoPoll \<and> \<not> fired (invs st i) Start
            \<and> \<not> fired (invs st i) Complete \<and> filter is_poll (trace st) = []))"

definition quiet :: "sys \<Rightarrow> bool" where
  "quiet st = (\<forall>i. settled (invs st i))"

text \<open>The state of a \<open>_.once\<close> wrapper agrees with the trace: the function under it has run
  once if the wrapper was ever called, and never otherwise.\<close>

definition guard_ok :: "nat \<Rightarrow> slot \<Rightarrow> sys \<Rightarrow> bool" where
  "guard_ok i s st =
     (length (filter (invoked i s) (trace st))
        = (if i < ninvs st \<and> fired (invs st i) s then 1 else 0)
      \<and> ((filter (notified i s) (trace st) \<noteq> []) = (i < ninvs st \<and> fired (invs st i) s)))"

text \<open>No wrapper of the \<open>images\<close> slot has been called.\<close>

definition images_unused :: "sys \<Rightarrow> bool" where
  "images_unused st = (\<forall>i. \<not> fired (invs st i) Images)"

text \<open>A call without polling callbacks that has not been retried: one invocation, which
  does not poll.\<close>

definition uninterested :: "sys \<Rightarrow> bool" where
  "uninterested st =
     (ninvs st = Suc 0 \<and> \<not> hasPollingCallbacks (invs st 0) \<and> phase (invs st 0) = NoPoll
      \<and> filter is_poll (trace st) = [])"



section \<open>Example inputs\<close>

text \<open>A \<open>request\<close> library that fetches what starts with \<open>http\<close> and the stream of such a
  fetch, and throws on everything else.\<close>

fun ex_request_throws :: "item \<Rightarrow> bool" where
  "ex_request_throws (ItemString s) = (\<not> is_link (ItemString s))"
| "ex_request_throws ItemStream = True"
| "ex_request_throws (Request it) = False"


definition ex_link :: item where
  "ex_link = ItemString ''http://10.0.0.7/a.png''"

definition ex_api :: api where
  "ex_api = Embdr ''key''"

definition ex_unreachable :: err where
  "ex_unreachable =
     \<lparr>code = Some 400, message = ''Unable to handle a link because it could not be reached''\<rparr>"

definition ex_transport :: err where
  "ex_transport =
     \<lparr>code = Some 500, message = ''Something went wrong trying to contact the server''\<rparr>"

definition start_only :: process_options where
  "start_only =
     \<lparr>opt_start = UserFn, opt_error = Unset, opt_complete = Unset, images_complete = Unset,
      thumbnails_complete = Unset, images_sizes = Undefined, thumbnails_sizes = Undefined\<rparr>"

definition empty_sizes :: process_options where
  "empty_sizes = start_only\<lparr>thumbnails_sizes := Arr []\<rparr>"

definition all_callbacks :: process_options where
  "all_callbacks =
     \<lparr>opt_start = UserFn, opt_error = UserFn, opt_complete = UserFn, images_complete = UserFn,
      thumbnails_complete = UserFn, images_sizes = Arr [''1200x'', ''x600''],
      thumbnails_sizes = Arr [''64x64'', ''256x256'']\<rparr>"

definition job :: "string \<Rightarrow> processor" where
  "job s = \<lparr>job_status = s\<rparr>"

definition ex_created :: resource where
  "ex_created =
     \<lparr>res_id = ''r1'', status = ''pending'', thumbnails = [job ''pending''],
      images = [job ''pending'']\<rparr>"

definition ex_images_done :: resource where
  "ex_images_done =
     \<lparr>res_id = ''r1'', status = ''pending'', thumbnails = [job ''pending''],
      images = [job ''complete'']\<rparr>"

definition ex_complete :: resource where
  "ex_complete =
     \<lparr>res_id = ''r1'', status = ''complete'', thumbnails = [job ''complete''],
      images = [job ''complete'']\<rparr>"

section \<open>Basic facts\<close>

lemma join_example: "join [''64x64'', ''256x256''] = ''64x64,256x256''"
  by simp

lemma addSizes_absent: "get options name = Undefined \<Longrightarrow> addSizes data options name = data"
  by (simp add: addSizes_def)

lemma addSizes_list:
  "get options name = Arr sizes \<Longrightarrow> addSizes data options name = put data name (Str (join sizes))"
  by (simp add: addSizes_def)

lemma Math_round_quarter: "Math_round (of_int t / 4) = (t + 2) div 4"
proof -
  have "(of_int t / 4 + 1 / 2 :: real) = of_int (t + 2) / of_int 4"
    by simp
  then show ?thesis
    unfolding Math_round_def by (simp only: floor_divide_of_int_eq)
qed

lemma backoff_code [code]:
  "backoff (Finite t) = to_double (t + (t + 2) div 4)"
  "backoff Infinity = Infinity"
  by (simp_all add: Math_round_quarter)

lemma req_method_api_request [simp]: "req_method (api_request a m p d) = m"
  by (simp add: api_request_def Let_def)

lemma not_unreachable_stream [simp]: "\<not> link_unreachable stream_error"
  by (simp add: link_unreachable_def stream_error_def)

lemma not_unreachable_open [simp]: "\<not> link_unreachable open_error"
  by (simp add: link_unreachable_def open_error_def)

lemma process_Request: "process throws (Request it) options st = submit (Request it) options st"
  by (simp add: process_def)

subsection \<open>What each operation does to the parts of the state\<close>

lemma emit_sel [simp]:
  "conf (emit es st) = conf st" "request_throws (emit es st) = request_throws st"
  "ninvs (emit es st) = ninvs st"
  "invs (emit es st) = invs st" "trace (emit es st) = trace st @ es"
  by (simp_all add: emit_def)

lemma upd_sel [simp]:
  "conf (upd i f st) = conf st" "request_throws (upd i f st) = request_throws st"
  "ninvs (upd i f st) = ninvs st"
  "invs (upd i f st) = (invs st)(i := f (invs st i))" "trace (upd i f st) = trace st"
  by (simp_all add: upd_def)

lemma callbacks_sel [simp]:
  "conf (callbacks i s a st) = conf st"
  "request_throws (callbacks i s a st) = request_throws st"
  "ninvs (callbacks i s a st) = ninvs st"
  "invs (callbacks i s a st)
     = (invs st)(i := (invs st i)\<lparr>fired := (fired (invs st i))(s := True)\<rparr>)"
  "trace (callbacks i s a st)
     = trace st @ Notify i s a # (if fired (invs st i) s then [] else [Invoke i s a])"
  by (simp_all add: callbacks_def fun_upd_idem)

lemma enter_sel [simp]:
  "conf (enter it options st) = conf st"
  "request_throws (enter it options st) = request_throws st"
  "ninvs (enter it options st) = Suc (ninvs st)"
  "trace (enter it options st) = trace st"
  "invs (enter it options st) = (invs st)(ninvs st := new_invocation it options)"
  by (simp_all add: enter_def)

lemma new_invocation_sel [simp]:
  "inv_item (new_invocation it options) = it"
  "inv_options (new_invocation it options) = default_callbacks options"
  "hasPollingCallbacks (new_invocation it options)
     = (cb_truthy (opt_complete options) \<or> cb_truthy (images_complete options)
        \<or> cb_truthy (thumbnails_complete options))"
  "fired (new_invocation it options) s = False"
  "awaiting (new_invocation it options) = False"
  "listening (new_invocation it options) = False"
  "phase (new_invocation it options) = NoPoll"
  by (simp_all add: new_invocation_def)

lemma submit_sel [simp]:
  "conf (submit it options st) = conf st"
  "request_throws (submit it options st) = request_throws st"
  "ninvs (submit it options st) = Suc (ninvs st)"
  "invs (submit it options st)
     = (invs st)(ninvs st :=
         (new_invocation it options)\<lparr>awaiting := True, listening := \<not> is_link it\<rparr>)"
  "trace (submit it options st)
     = trace st @
       [Http (ninvs st) (api_request (conf st) ''POST'' ''/resources''
          (if is_link it then createLink_data (the_string it) (createOptions options)
           else createFile_data it (createOptions options)))]"
  by (simp_all add: submit_def Let_def createLink_def createFile_stream_def new_invocation_def)

lemma setTimeout_poll_sel [simp]:
  "conf (setTimeout_poll i st) = conf st"
  "request_throws (setTimeout_poll i st) = request_throws st"
  "ninvs (setTimeout_poll i st) = ninvs st"
  "invs (setTimeout_poll i st) = (invs st)(i := (invs st i)\<lparr>phase := TimerSet\<rparr>)"
  "trace (setTimeout_poll i st) = trace st @ [SetTimeout i (pollingTimeout (invs st i))]"
  by (simp_all add: setTimeout_poll_def)

lemma poll_sel [simp]:
  "conf (poll i st) = conf st"
  "request_throws (poll i st) = request_throws st"
  "ninvs (poll i st) = ninvs st"
  "invs (poll i st) = (invs st)(i := (invs st i)\<lparr>phase := Fetching\<rparr>)"
  "trace (poll i st)
     = trace st @ [Http i (api_request (conf st) ''GET''
                            (resources_get_path (createdResource_id (invs st i))) [])]"
  by (simp_all add: poll_def)

lemma run_Nil [simp]: "run st [] = st"
  by (simp add: run_def)

lemma run_Cons [simp]: "run st (x # xs) = run (step st x) xs"
  by (simp add: run_def)

lemma timeouts_append [simp]: "timeouts (xs @ ys) = timeouts xs @ timeouts ys"
  by (induction xs rule: timeouts.induct) simp_all

subsection \<open>The chain of retries\<close>

lemma chain_timer: "chain st \<Longrightarrow> chain (step st (TimerFires i))"
proof (cases "i < ninvs st \<and> phase (invs st i) = TimerSet")
  case True
  assume c: "chain st"
  with True have "Suc i = ninvs st" "\<not> awaiting (invs st i)"
    by (auto simp: chain_def settled_def)
  with c True show ?thesis
    by (auto simp: chain_def settled_def)
next
  case False
  assume "chain st"
  with False show ?thesis by auto
qed

lemma chain_stream: "chain st \<Longrightarrow> chain (step st (StreamError i))"
  by (auto simp: chain_def settled_def creation_callback_def)

lemma chain_poll: "chain st \<Longrightarrow> chain (step st (PollResponse i r))"
proof (cases "i < ninvs st \<and> phase (invs st i) = Fetching")
  case True
  assume c: "chain st"
  with True have "Suc i = ninvs st" "\<not> awaiting (invs st i)"
    by (auto simp: chain_def settled_def)
  with c True show ?thesis
    by (cases r) (auto simp: chain_def settled_def poll_callback_def Let_def)
next
  case False
  assume "chain st"
  with False show ?thesis by auto
qed

lemma chain_create: "chain st \<Longrightarrow> chain (step st (CreateResponse i r))"
proof (cases "i < ninvs st \<and> awaiting (invs st i)")
  case True
  assume c: "chain st"
  with True have n: "Suc i = ninvs st"
    by (auto simp: chain_def settled_def)
  with c True have l: "phase (invs st i) = NoPoll" "\<not> fired (invs st i) Start"
    "\<not> fired (invs st i) Complete" "filter is_poll (trace st) = []"
    "\<And>j. j \<noteq> i \<Longrightarrow> settled (invs st j)"
    by (auto simp: chain_def settled_def)
  show ?thesis
  proof (cases r)
    case (Inl e)
    with n l True show ?thesis
      by (auto simp: chain_def settled_def creation_callback_def)
  next
    case (Inr res)
    with n l True show ?thesis
      by (auto simp: chain_def settled_def creation_callback_def Let_def)
  qed
next
  case False
  assume "chain st"
  with False show ?thesis by auto
qed

lemma chain_step: "chain st \<Longrightarrow> chain (step st inp)"
  by (cases inp) (simp_all only: chain_create chain_stream chain_timer chain_poll)

lemma chain_run: "chain st \<Longrightarrow> chain (run st ins)"
  by (induction ins arbitrary: st) (simp_all add: chain_step)

lemma chain_process: "chain (process throws it options (init a rt))"
  by (auto simp: chain_def process_def init_def settled_def creation_callback_def no_invocation_def)

lemma chain_reachable: "chain (run (process throws it options (init a rt)) ins)"
  by (rule chain_run [OF chain_process])

subsection \<open>Once every invocation is settled nothing polls again\<close>

lemma quiet_step:
  "quiet st \<Longrightarrow>
   quiet (step st inp) \<and> filter is_poll (trace (step st inp)) = filter is_poll (trace st)"
  by (cases inp) (auto simp: quiet_def settled_def creation_callback_def)

lemma quiet_run:
  "quiet st \<Longrightarrow>
   quiet (run st ins) \<and> filter is_poll (trace (run st ins)) = filter is_poll (trace st)"
proof (induction ins arbitrary: st)
  case Nil
  then show ?case by simp
next
  case (Cons x xs)
  from quiet_step [OF Cons.prems, of x] Cons.IH [of "step st x"] show ?case by simp
qed

subsection \<open>The once-guards\<close>

lemma guard_callbacks:
  "guard_ok i s st \<Longrightarrow> j < ninvs st \<Longrightarrow> guard_ok i s (callbacks j t a st)"
  by (auto simp: guard_ok_def)

lemma guard_upd:
  "guard_ok i s st \<Longrightarrow> (\<And>v. fired (f v) = fired v) \<Longrightarrow> guard_ok i s (upd j f st)"
  by (auto simp: guard_ok_def)

lemma guard_submit: "guard_ok i s st \<Longrightarrow> guard_ok i s (submit it options st)"
  by (auto simp: guard_ok_def)

lemma guard_enter: "guard_ok i s st \<Longrightarrow> guard_ok i s (enter it options st)"
  by (auto simp: guard_ok_def)

lemma guard_setTimeout_poll: "guard_ok i s st \<Longrightarrow> guard_ok i s (setTimeout_poll j st)"
  by (auto simp: guard_ok_def)

lemma guard_poll: "guard_ok i s st \<Longrightarrow> guard_ok i s (poll j st)"
  by (auto simp: guard_ok_def)

lemma guard_uncaught: "guard_ok i s st \<Longrightarrow> guard_ok i s (emit [Uncaught j] st)"
  by (auto simp: guard_ok_def)

lemmas guard_ops =
  guard_callbacks guard_upd guard_submit guard_enter guard_setTimeout_poll guard_poll
  guard_uncaught

lemma guard_creation_callback:
  "guard_ok i s st \<Longrightarrow> j < ninvs st \<Longrightarrow> guard_ok i s (creation_callback j r st)"
  by (cases r) (simp_all add: creation_callback_def Let_def guard_ops)

lemma guard_poll_callback:
  "guard_ok i s st \<Longrightarrow> j < ninvs st \<Longrightarrow> guard_ok i s (poll_callback j r st)"
  by (cases r) (simp_all add: poll_callback_def Let_def guard_ops)

lemma guard_step: "guard_ok i s st \<Longrightarrow> guard_ok i s (step st inp)"
  by (cases inp) (simp_all add: guard_creation_callback guard_poll_callback guard_ops)

lemma guard_run: "guard_ok i s st \<Longrightarrow> guard_ok i s (run st ins)"
  by (induction ins arbitrary: st) (simp_all add: guard_step)

lemma guard_init: "guard_ok i s (init a rt)"
  by (simp add: guard_ok_def init_def)

lemma guard_process: "guard_ok i s (process throws it options (init a rt))"
  by (simp add: process_def guard_init guard_creation_callback guard_ops)

lemma guard_reachable: "guard_ok i s (run (process throws it options (init a rt)) ins)"
  by (rule guard_run [OF guard_process])


subsection \<open>The wrapper of the images slot\<close>

lemma images_unused_step: "images_unused st \<Longrightarrow> images_unused (step st inp)"
proof (cases inp)
  case (CreateResponse i r)
  assume "images_unused st"
  then show ?thesis unfolding CreateResponse
    by (cases r) (auto simp: images_unused_def creation_callback_def Let_def)
next
  case (StreamError i)
  assume "images_unused st"
  then show ?thesis unfolding StreamError
    by (auto simp: images_unused_def creation_callback_def)
next
  case (TimerFires i)
  assume "images_unused st"
  then show ?thesis unfolding TimerFires
    by (auto simp: images_unused_def)
next
  case (PollResponse i r)
  assume "images_unused st"
  then show ?thesis unfolding PollResponse
    by (cases r) (auto simp: images_unused_def poll_callback_def Let_def)
qed

lemma images_unused_run: "images_unused st \<Longrightarrow> images_unused (run st ins)"
  by (induction ins arbitrary: st) (simp_all add: images_unused_step)

lemma images_unused_process: "images_unused (process throws it options (init a rt))"
  by (auto simp: images_unused_def process_def init_def creation_callback_def no_invocation_def)

lemma images_callback_never_runs:
  "filter (notified i Images) (trace (run (process throws it options (init a rt)) ins)) = []
   \<and> filter (invoked i Images) (trace (run (process throws it options (init a rt)) ins)) = []"
proof -
  let ?st = "run (process throws it options (init a rt)) ins"
  have "images_unused ?st"
    by (rule images_unused_run [OF images_unused_process])
  then have "\<not> fired (invs ?st i) Images"
    by (simp add: images_unused_def)
  with guard_reachable [of i Images throws it options a rt ins] show ?thesis
    by (simp add: guard_ok_def)
qed

subsection \<open>Polls that find the resource pending\<close>

lemma one_pending_poll:
  assumes "i < ninvs st" and "phase (invs st i) = TimerSet" and "status r = ''pending''"
  shows "ninvs (run st [TimerFires i, PollResponse i (Inr r)]) = ninvs st"
    and "phase (invs (run st [TimerFires i, PollResponse i (Inr r)]) i) = TimerSet"
    and "pollingTimeout (invs (run st [TimerFires i, PollResponse i (Inr r)]) i)
          = backoff (pollingTimeout (invs st i))"
    and "timeouts (trace (run st [TimerFires i, PollResponse i (Inr r)]))
          = timeouts (trace st) @ [backoff (pollingTimeout (invs st i))]"
  using assms by (simp_all add: poll_callback_def Let_def)

lemma pending_polls_timeouts:
  "i < ninvs st \<Longrightarrow> phase (invs st i) = TimerSet \<Longrightarrow> \<forall>r\<in>set rs. status r = ''pending'' \<Longrightarrow>
   timeouts (trace (run st (pending_polls i rs)))
     = timeouts (trace st)
       @ map (\<lambda>k. (backoff ^^ Suc k) (pollingTimeout (invs st i))) [0..<length rs]"
proof (induction rs arbitrary: st)
  case Nil
  then show ?case by (simp add: pending_polls_def)
next
  case (Cons r rs)
  let ?st' = "run st [TimerFires i, PollResponse i (Inr r)]"
  let ?t = "pollingTimeout (invs st i)"
  from Cons.prems have r: "status r = ''pending''" "\<forall>r\<in>set rs. status r = ''pending''"
    by simp_all
  note o = one_pending_poll [OF Cons.prems(1,2) r(1)]
  from o(1) Cons.prems(1) have n': "i < ninvs ?st'"
    by (simp only:)
  have e: "run st (pending_polls i (r # rs)) = run ?st' (pending_polls i rs)"
    by (simp add: pending_polls_def)
  have "timeouts (trace (run st (pending_polls i (r # rs))))
          = (timeouts (trace st) @ [backoff ?t])
            @ map (\<lambda>k. (backoff ^^ Suc k) (backoff ?t)) [0..<length rs]"
    by (simp only: e Cons.IH [OF n' o(2) r(2)] o(3) o(4))
  also have "\<dots> = timeouts (trace st) @ map (\<lambda>k. (backoff ^^ Suc k) ?t) [0..<length (r # rs)]"
    by (simp add: map_upt_Suc funpow_swap1 del: upt_Suc)
  finally show ?case .
qed

lemma delay_funpow: "delay n = (backoff ^^ n) (Finite DEFAULT_POLLING_INITIAL_TIMEOUT)"
  by (induction n) simp_all

lemma delay_first:
  "map delay [0, 1, 2, 3] = [Finite 2000, Finite 2500, Finite 3125, Finite 3906]"
  by code_simp

subsection \<open>Without a retry, a caller without polling callbacks causes no poll\<close>

lemma uninterested_step:
  "uninterested st \<Longrightarrow> \<not> unreachable_answer inp \<Longrightarrow> uninterested (step st inp)"
proof (cases inp)
  case (CreateResponse i r)
  assume "uninterested st" "\<not> unreachable_answer inp"
  then show ?thesis unfolding CreateResponse
    by (cases r) (auto simp: uninterested_def creation_callback_def Let_def)
next
  case (StreamError i)
  assume "uninterested st"
  then show ?thesis unfolding StreamError
    by (auto simp: uninterested_def creation_callback_def)
next
  case (TimerFires i)
  assume "uninterested st"
  then show ?thesis unfolding TimerFires
    by (auto simp: uninterested_def)
next
  case (PollResponse i r)
  assume "uninterested st"
  then show ?thesis unfolding PollResponse
    by (auto simp: uninterested_def)
qed

lemma uninterested_run:
  "uninterested st \<Longrightarrow> \<forall>inp\<in>set ins. \<not> unreachable_answer inp \<Longrightarrow> uninterested (run st ins)"
  by (induction ins arbitrary: st) (simp_all add: uninterested_step)

lemma no_poll_without_retry:
  assumes "\<not> cb_truthy (opt_complete options)" and "\<not> cb_truthy (images_complete options)"
    and "\<not> cb_truthy (thumbnails_complete options)"
    and "\<forall>inp\<in>set ins. \<not> unreachable_answer inp"
  shows "filter is_poll (trace (run (process throws it options (init a rt)) ins)) = []"
proof -
  from assms(1-3) have "uninterested (process throws it options (init a rt))"
    by (auto simp: uninterested_def process_def init_def creation_callback_def)
  from uninterested_run [OF this assms(4)] show ?thesis
    by (simp add: uninterested_def)
qed

subsection \<open>A link that is retried at most once\<close>






subsection \<open>A call that is never retried\<close>







subsection \<open>Rounding to a double\<close>

lemma to_double_exact: "x < 2 ^ 53 \<Longrightarrow> to_double x = Finite x"
  by (simp add: to_double_def)

lemma to_double_grows:
  assumes "2 \<le> t"
  shows "num_less (Finite t) (to_double (t + (t + 2) div 4))"
proof -
  define d where "d = (t + 2) div 4"
  define s where "s = t + d"
  from assms have d: "1 \<le> d" "t \<le> 4 * d + 1"
    by (simp_all add: d_def)
  show ?thesis
  proof (cases "s < 2 ^ 53")
    case True
    with d show ?thesis
      by (simp add: to_double_def s_def d_def)
  next
    case False
    define e where "e = nat (bitlen s - 53)"
    define P where "P = (2::int) ^ e"
    from False d have s0: "0 < s" by (simp add: s_def)
    from False have b: "54 \<le> bitlen s"
      using bitlen_le_iff_power [of s 53] by simp
    from bitlen_bounds [OF s0] have "2 ^ nat (bitlen s - 1) \<le> s" ..
    moreover from b have "nat (bitlen s - 1) = e + 52"
      by (simp add: e_def)
    ultimately have "P * 2 ^ 52 \<le> s"
      by (simp add: P_def power_add)
    then have P52: "P * 4503599627370496 \<le> s" by simp
    have P0: "0 < P" by (simp add: P_def)
    have Pd: "P \<le> d"
    proof (rule ccontr)
      assume "\<not> P \<le> d"
      then have "d + 1 \<le> P" by simp
      with P52 d show False by (simp add: s_def)
    qed
    define q where "q = s div P"
    define r where "r = s mod P"
    have sq: "s = q * P + r" by (simp add: q_def r_def)
    from P0 have r: "0 \<le> r" "r < P" by (simp_all add: r_def)
    from sq r Pd d have qP: "t < q * P" by (simp add: s_def)
    with P0 have qP1: "t < (q + 1) * P" by (simp add: algebra_simps)
    from False qP qP1 show ?thesis
      by (simp add: to_double_def Let_def s_def [symmetric] d_def [symmetric]
          e_def [symmetric] P_def [symmetric] q_def [symmetric] r_def [symmetric])
  qed
qed

lemma backoff_grows: "2 \<le> t \<Longrightarrow> num_less (Finite t) (backoff (Finite t))"
  by (simp add: Math_round_quarter to_double_grows)

lemma delay_Finite_ge: "delay n = Finite t \<Longrightarrow> 2000 \<le> t"
proof (induction n arbitrary: t)
  case 0
  then show ?case by (simp add: DEFAULT_POLLING_INITIAL_TIMEOUT_def)
next
  case (Suc n)
  show ?case
  proof (cases "delay n")
    case (Finite u)
    from Suc.IH [OF Finite] have u: "2000 \<le> u" .
    then have "num_less (Finite u) (backoff (Finite u))"
      by (intro backoff_grows) simp
    with Suc.prems Finite u show ?thesis by simp
  next
    case Infinity
    with Suc.prems show ?thesis by simp
  qed
qed

lemma delay_strict: "delay n = Finite t \<Longrightarrow> num_less (delay n) (delay (Suc n))"
  using delay_Finite_ge [of n t] backoff_grows [of t] by simp

lemma num_less_le: "num_less x y \<Longrightarrow> num_le x y"
  by (cases x; cases y) simp_all

lemma delay_mono: "num_le (delay n) (delay (Suc n))"
proof (cases "delay n")
  case (Finite t)
  from delay_strict [OF this] show ?thesis by (rule num_less_le)
next
  case Infinity
  then show ?thesis by simp
qed

subsection \<open>What a file upload carries\<close>

lemma put_get: "get (put d k v) k = v"
  by (induction d) auto

lemma put_get_other: "k' \<noteq> k \<Longrightarrow> get (put d k v) k' = get d k'"
  by (induction d) auto

lemma addSizes_get_other: "k \<noteq> name \<Longrightarrow> get (addSizes d options name) k = get d k"
  by (simp add: addSizes_def put_get_other)

lemma createFile_data_file: "get (createFile_data f options) ''file'' = Strm f"
  by (simp add: createFile_data_def addSizes_get_other)

subsection \<open>Lowering the ASCII letters\<close>

lemma toLowerCase_char_table:
  "toLowerCase_char =
     (\<lambda>c. case map_of (zip ''ABCDEFGHIJKLMNOPQRSTUVWXYZ'' ''abcdefghijklmnopqrstuvwxyz'') c of
             Some l \<Rightarrow> l | None \<Rightarrow> c)"
  by code_simp


section \<open>The claims\<close>

text \<open>
  C1. When a poll finds every entry of \<open>resource.images\<close> done, the callback given as
  \<open>options.images.complete\<close> should be invoked with \<open>resource.images\<close> through its own
  once-guarded slot, without touching the guard of the thumbnails callback.

  The code calls \<open>callbacks.thumbnails(resource.images)\<close> instead. In the run below the
  caller gives all five callbacks; the first poll finds the images done and the thumbnails
  pending, the second finds everything done. The thumbnails callback is invoked with the
  images, the images callback is never invoked, and the thumbnails callback is not told
  about the thumbnails, its guard being used up. (\<open>images_callback_never_runs\<close> above:
  no run ever calls the wrapper of the images slot.)
\<close>

theorem images_done_invokes_thumbnails_callback:
  "filter is_invoke
     (trace (run (process False ex_link all_callbacks (init ex_api ex_request_throws))
        [CreateResponse 0 (Inr ex_created), TimerFires 0, PollResponse 0 (Inr ex_images_done),
         TimerFires 0, PollResponse 0 (Inr ex_complete)]))
   = [Invoke 0 Start (ARes ex_created), Invoke 0 Thumbnails (AJobs (images ex_images_done)),
      Invoke 0 Complete (ARes ex_complete)]"
  by code_simp

text \<open>
  C2. A call to \<open>process\<close> with a non-empty \<open>options.images.sizes\<close> should send the field
  \<open>imagePreviewSizes\<close> with the comma-joined list in its POST.

  \<open>process\<close> stores the list under \<open>imageSizes\<close> in the options of the creator, and
  \<open>addSizes\<close> looks for \<open>imagePreviewSizes\<close> there: with the image sizes
  \<open>['1200x', 'x600']\<close> and the thumbnail sizes \<open>['64x64', '256x256']\<close> the POST
  carries the link and the thumbnail sizes only.
\<close>

theorem process_drops_image_sizes:
  "posted (trace (process False ex_link all_callbacks (init ex_api ex_request_throws)))
   = [(0, [(''link'', Str ''http://10.0.0.7/a.png''),
           (''thumbnailSizes'', Str ''64x64,256x256'')])]"
  by code_simp

text \<open>
  C3. A size option that is a non-empty list should be sent joined with commas, and one
  that is an empty list or absent should be left out of the request data, so that an empty
  string is never sent.

  \<open>addSizes\<close> tests the option before it joins it, and an empty array is truthy: for a
  link with the thumbnail sizes \<open>[]\<close> the URL-encoded POST carries \<open>thumbnailSizes\<close>
  with the empty string as its value. (\<open>addSizes_list\<close> and \<open>addSizes_absent\<close> above are
  the two cases in which the code does what the claim says.)
\<close>

theorem empty_size_list_sent_as_empty_string:
  "posted (trace (process False ex_link empty_sizes (init ex_api ex_request_throws)))
   = [(0, [(''link'', Str ''http://10.0.0.7/a.png''), (''thumbnailSizes'', Str '''')])]"
  by code_simp







text \<open>
  C6, as stated: the delays of the polls are 2000, 2500, 3125, 3906 and so on, each the one
  before plus the rounding of its quarter, for as long as the polling lasts.

  \<open>pollingTimeout\<close> is a double. The delay before the poll number 131 (counting from 0) is
  the first above \<open>2^53\<close>; the sum that gives the next delay is odd and is no double, and
  the code sets the timer to the even neighbour of it.
\<close>

theorem backoff_inexact_counterexample:
  "delay 131 = Finite 9916176513383268
   \<and> delay 132 = Finite 12395220641729084
   \<and> 9916176513383268 + Math_round (of_int 9916176513383268 / 4) = 12395220641729085"
proof (intro conjI)
  show "delay 131 = Finite 9916176513383268" by code_simp
  show "delay 132 = Finite 12395220641729084" by code_simp
  show "9916176513383268 + Math_round (of_int 9916176513383268 / 4) = 12395220641729085"
    using Math_round_quarter [of 9916176513383268] by simp
qed

text \<open>
  C6, amended. With the initial timeout 2000 and the denominator 4 the delays that the code
  passes to \<open>setTimeout\<close> are 2000, 2500, 3125, 3906 and so on: each is the one before plus
  \<open>Math.round\<close> of its quarter, rounded to a double, which is that sum itself as long as
  the sum is below \<open>2^53\<close>. The delays never decrease, and a delay that is finite is
  strictly smaller than the next one. The first part of the statement ties the sequence to
  the code: the timers that \<open>process\<close> sets for a pending resource and any number of polls
  that find it pending are the first delays of the sequence.
\<close>

theorem backoff_growth:
  assumes "status r = ''pending''" and "\<forall>r'\<in>set rs. status r' = ''pending''"
    and "cb_truthy (opt_complete options) \<or> cb_truthy (images_complete options)
         \<or> cb_truthy (thumbnails_complete options)"
  shows "timeouts (trace (run (process False it options (init a rt))
                           (CreateResponse 0 (Inr r) # pending_polls 0 rs)))
           = map delay [0..<Suc (length rs)]
         \<and> map delay [0, 1, 2, 3] = [Finite 2000, Finite 2500, Finite 3125, Finite 3906]
         \<and> (\<forall>n t. delay n = Finite t \<longrightarrow>
                delay (Suc n) = to_double (t + Math_round (of_int t / 4)))
         \<and> (\<forall>n t. delay n = Finite t \<and> t + Math_round (of_int t / 4) < 2 ^ 53 \<longrightarrow>
                delay (Suc n) = Finite (t + Math_round (of_int t / 4)))
         \<and> (\<forall>n. num_le (delay n) (delay (Suc n)))
         \<and> (\<forall>n t. delay n = Finite t \<longrightarrow> num_less (delay n) (delay (Suc n)))"
proof -
  let ?st = "step (process False it options (init a rt)) (CreateResponse 0 (Inr r))"
  from assms have s: "0 < ninvs ?st" "phase (invs ?st 0) = TimerSet"
    "pollingTimeout (invs ?st 0) = Finite DEFAULT_POLLING_INITIAL_TIMEOUT"
    "timeouts (trace ?st) = [Finite DEFAULT_POLLING_INITIAL_TIMEOUT]"
    by (simp_all add: process_def init_def creation_callback_def Let_def)
  from pending_polls_timeouts [OF s(1,2) assms(2)] s
  have "timeouts (trace (run ?st (pending_polls 0 rs)))
          = delay 0 # map (\<lambda>k. delay (Suc k)) [0..<length rs]"
    by (simp add: delay_funpow)
  then have a: "timeouts (trace (run (process False it options (init a rt))
                           (CreateResponse 0 (Inr r) # pending_polls 0 rs)))
           = map delay [0..<Suc (length rs)]"
    by (simp add: map_upt_Suc del: upt_Suc delay.simps)
  have b: "delay (Suc n) = to_double (t + Math_round (of_int t / 4))" if "delay n = Finite t" for n t
    using that by simp
  have c: "delay (Suc n) = Finite (t + Math_round (of_int t / 4))"
    if "delay n = Finite t \<and> t + Math_round (of_int t / 4) < 2 ^ 53" for n t
    using that by (simp add: to_double_exact)
  from a b c delay_first delay_mono delay_strict show ?thesis by blast
qed

theorem backoff_growth_witness:
  "status ex_created = ''pending'' \<and> status ex_images_done = ''pending''
   \<and> timeouts (trace (run (process False ex_link all_callbacks (init ex_api ex_request_throws))
                        (CreateResponse 0 (Inr ex_created)
                           # pending_polls 0 [ex_created, ex_images_done])))
       = [Finite 2000, Finite 2500, Finite 3125]"
proof -
  have h1: "status ex_created = ''pending''"
    by (simp add: ex_created_def)
  have h2: "\<forall>r'\<in>set [ex_created, ex_images_done]. status r' = ''pending''"
    by (simp add: ex_created_def ex_images_done_def)
  have h3: "cb_truthy (opt_complete all_callbacks) \<or> cb_truthy (images_complete all_callbacks)
         \<or> cb_truthy (thumbnails_complete all_callbacks)"
    by (simp add: all_callbacks_def cb_truthy_def)
  have d: "map delay [0..<Suc (length [ex_created, ex_images_done])]
             = [Finite 2000, Finite 2500, Finite 3125]"
    by code_simp
  from backoff_growth [OF h1 h2 h3, of ex_link ex_api ex_request_throws]
  have "timeouts (trace (run (process False ex_link all_callbacks (init ex_api ex_request_throws))
                        (CreateResponse 0 (Inr ex_created)
                           # pending_polls 0 [ex_created, ex_images_done])))
          = map delay [0..<Suc (length [ex_created, ex_images_done])]"
    by (rule conjunct1)
  with d have "timeouts (trace (run (process False ex_link all_callbacks
                                       (init ex_api ex_request_throws))
                        (CreateResponse 0 (Inr ex_created)
                           # pending_polls 0 [ex_created, ex_images_done])))
          = [Finite 2000, Finite 2500, Finite 3125]"
    by (simp only:)
  moreover have "status ex_images_done = ''pending''"
    by (simp add: ex_images_done_def)
  ultimately show ?thesis
    using h1 by blast
qed

text \<open>
  C7. When the created resource is pending and the caller gave none of \<open>complete\<close>,
  \<open>thumbnails.complete\<close> and \<open>images.complete\<close>, no poll request should ever be made.

  The retry hands the options object of the caller to \<open>process\<close> again after the defaults
  were written into it, so that the retry finds three polling callbacks, the empty
  functions. A caller who gives \<open>start\<close> only and whose link the server cannot reach gets
  the retry, a pending resource, a timer and a GET request. (Without a retry no poll is
  made: \<open>no_poll_without_retry\<close> above.)
\<close>

theorem retry_polls_without_polling_callbacks:
  "filter is_poll
     (trace (run (process False ex_link start_only (init ex_api ex_request_throws))
        [CreateResponse 0 (Inl ex_unreachable), CreateResponse 1 (Inr ex_created), TimerFires 1]))
   = [SetTimeout 1 (Finite 2000), Http 1 (api_request ex_api ''GET'' ''/resources/r1'' [])]"
  by code_simp

text \<open>
  C8. When the answer to the POST is a resource whose status is not \<open>pending\<close>, the start
  callback is invoked, then the complete callback with that resource, and no poll is ever
  made for the call: neither before that answer nor after it, whatever happens later, is
  there a timer or a GET request in the trace.
\<close>

theorem immediate_completion:
  assumes "st = run (process throws it options (init a rt)) ins"
    and "i < ninvs st" and "awaiting (invs st i)" and "status r \<noteq> ''pending''"
  shows "trace (step st (CreateResponse i (Inr r)))
           = trace st @ [Notify i Start (ARes r), Invoke i Start (ARes r),
                         Notify i Complete (ARes r), Invoke i Complete (ARes r)]
         \<and> filter is_poll (trace (run (step st (CreateResponse i (Inr r))) later)) = []"
proof -
  have c: "chain st"
    unfolding assms(1) by (rule chain_reachable)
  with assms(3) have f: "\<not> fired (invs st i) Start" "\<not> fired (invs st i) Complete"
    "filter is_poll (trace st) = []" "phase (invs st i) = NoPoll"
    by (auto simp: chain_def)
  from c assms(3) have n: "Suc i = ninvs st"
    by (auto simp: chain_def settled_def)
  with c have o: "\<And>j. j \<noteq> i \<Longrightarrow> settled (invs st j)"
    by (auto simp: chain_def)
  let ?st' = "step st (CreateResponse i (Inr r))"
  from assms f have t: "trace ?st' = trace st @ [Notify i Start (ARes r), Invoke i Start (ARes r),
                         Notify i Complete (ARes r), Invoke i Complete (ARes r)]"
    by (simp add: creation_callback_def Let_def)
  from assms f o have q: "quiet ?st'"
    by (auto simp: creation_callback_def Let_def quiet_def settled_def)
  from quiet_run [OF q, of later] t f show ?thesis by simp
qed

theorem immediate_completion_witness:
  "awaiting (invs (run (process False ex_link start_only (init ex_api ex_request_throws)) []) 0)
   \<and> status ex_complete \<noteq> ''pending''
   \<and> trace (step (run (process False ex_link start_only (init ex_api ex_request_throws)) [])
               (CreateResponse 0 (Inr ex_complete)))
       = trace (run (process False ex_link start_only (init ex_api ex_request_throws)) [])
         @ [Notify 0 Start (ARes ex_complete), Invoke 0 Start (ARes ex_complete),
            Notify 0 Complete (ARes ex_complete), Invoke 0 Complete (ARes ex_complete)]
   \<and> filter is_poll
        (trace (run (step (run (process False ex_link start_only
                                  (init ex_api ex_request_throws)) [])
                       (CreateResponse 0 (Inr ex_complete)))
                  [StreamError 0, TimerFires 0, PollResponse 0 (Inr ex_created)])) = []"
proof -
  have h1: "0 < ninvs (run (process False ex_link start_only (init ex_api ex_request_throws)) [])"
    by code_simp
  have h2: "awaiting (invs (run (process False ex_link start_only
                                   (init ex_api ex_request_throws)) []) 0)"
    by code_simp
  have h3: "status ex_complete \<noteq> ''pending''"
    by (simp add: ex_complete_def)
  from h2 h3 immediate_completion [OF refl h1 h2 h3,
      of "[StreamError 0, TimerFires 0, PollResponse 0 (Inr ex_created)]"]
  show ?thesis
    by blast
qed

text \<open>
  C9. When the answer to a GET of the polling loop is an error, the error callback is
  invoked with that error unless it has run before, nothing else is invoked, and polling
  halts for good: neither this step nor anything that happens later adds a timer or a GET
  request to the trace.
\<close>

theorem poll_error_halts:
  assumes "st = run (process throws it options (init a rt)) ins"
    and "i < ninvs st" and "phase (invs st i) = Fetching"
  shows "trace (step st (PollResponse i (Inl e)))
           = trace st @ Notify i Error (AErr e)
               # (if fired (invs st i) Error then [] else [Invoke i Error (AErr e)])
         \<and> filter is_poll (trace (run (step st (PollResponse i (Inl e))) later))
             = filter is_poll (trace st)"
proof -
  have c: "chain st"
    unfolding assms(1) by (rule chain_reachable)
  with assms(3) have n: "Suc i = ninvs st" "\<not> awaiting (invs st i)"
    by (auto simp: chain_def settled_def)
  with c have o: "\<And>j. j \<noteq> i \<Longrightarrow> settled (invs st j)"
    by (auto simp: chain_def)
  let ?st' = "step st (PollResponse i (Inl e))"
  from assms have t: "trace ?st' = trace st @ Notify i Error (AErr e)
               # (if fired (invs st i) Error then [] else [Invoke i Error (AErr e)])"
    by (simp add: poll_callback_def)
  from assms n o have q: "quiet ?st'"
    by (auto simp: poll_callback_def quiet_def settled_def)
  from quiet_run [OF q, of later] t show ?thesis by simp
qed

theorem poll_error_halts_witness:
  "phase (invs (run (process False ex_link all_callbacks (init ex_api ex_request_throws))
                  [CreateResponse 0 (Inr ex_created), TimerFires 0]) 0) = Fetching
   \<and> trace (step (run (process False ex_link all_callbacks (init ex_api ex_request_throws))
                     [CreateResponse 0 (Inr ex_created), TimerFires 0])
               (PollResponse 0 (Inl ex_transport)))
       = trace (run (process False ex_link all_callbacks (init ex_api ex_request_throws))
                  [CreateResponse 0 (Inr ex_created), TimerFires 0])
         @ Notify 0 Error (AErr ex_transport)
           # (if fired (invs (run (process False ex_link all_callbacks
                                     (init ex_api ex_request_throws))
                               [CreateResponse 0 (Inr ex_created), TimerFires 0]) 0) Error
              then [] else [Invoke 0 Error (AErr ex_transport)])
   \<and> filter is_poll
        (trace (run (step (run (process False ex_link all_callbacks
                                  (init ex_api ex_request_throws))
                             [CreateResponse 0 (Inr ex_created), TimerFires 0])
                       (PollResponse 0 (Inl ex_transport)))
                  [TimerFires 0, PollResponse 0 (Inr ex_complete)]))
       = filter is_poll
           (trace (run (process False ex_link all_callbacks (init ex_api ex_request_throws))
                     [CreateResponse 0 (Inr ex_created), TimerFires 0]))"
proof -
  have h1: "0 < ninvs (run (process False ex_link all_callbacks (init ex_api ex_request_throws))
                  [CreateResponse 0 (Inr ex_created), TimerFires 0])"
    by code_simp
  have h2: "phase (invs (run (process False ex_link all_callbacks
                                (init ex_api ex_request_throws))
                  [CreateResponse 0 (Inr ex_created), TimerFires 0]) 0) = Fetching"
    by code_simp
  from h2 poll_error_halts [OF refl h1 h2, of ex_transport
      "[TimerFires 0, PollResponse 0 (Inr ex_complete)]"]
  show ?thesis
    by blast
qed

text \<open>
  C10. \<open>setProtocol\<close> and \<open>setBasePath\<close> store their argument in lower case: for a string
  of ASCII characters the letters \<open>A\<close> to \<open>Z\<close> are replaced by \<open>a\<close> to \<open>z\<close> and
  everything else is kept (\<open>setBasePath('/API')\<close> stores \<open>/api\<close>), and a string with
  other characters is stored as the engine lowers it. \<open>setHost\<close>, \<open>setPort\<close>,
  \<open>setStrictSSL\<close> and \<open>setApiKey\<close> store what they are given without changing its case
  (the key inside the credential; the optional protocol of \<open>setHost\<close> goes through
  \<open>setProtocol\<close>), and the URL of every request is put together from the stored values.
\<close>

theorem setters_store_lowercase:
  fixes lower :: "char \<Rightarrow> char"
  defines "lower \<equiv>
    (\<lambda>c. case map_of (zip ''ABCDEFGHIJKLMNOPQRSTUVWXYZ'' ''abcdefghijklmnopqrstuvwxyz'') c of
            Some l \<Rightarrow> l | None \<Rightarrow> c)"
  shows
  "protocol (setProtocol engine p a)
     = (if list_all (\<lambda>c. (of_char c :: nat) < 128) p then map lower p else engine p)
   \<and> basePath (setBasePath engine b a)
     = (if list_all (\<lambda>c. (of_char c :: nat) < 128) b then map lower b else engine b)
   \<and> basePath (setBasePath engine ''/API'' a) = ''/api''
   \<and> protocol (setProtocol engine ''HTTPS'' a) = ''https''
   \<and> host (setHost engine h po pr a) = h
   \<and> host (setHost engine ''Embdr.IO'' po pr a) = ''Embdr.IO''
   \<and> port (setHost engine h (Some (Suc n)) pr a) = Suc n
   \<and> port (setHost engine h None pr a) = port a
   \<and> protocol (setHost engine h po (Some ''HTTPS'') a) = ''https''
   \<and> protocol (setHost engine h po None a) = protocol a
   \<and> port (setPort n a) = n
   \<and> strictSSL (setStrictSSL s a) = Some s
   \<and> auth (setApiKey ''Key'' a) = Some ''Basic S2V5Og==''
   \<and> auth (setApiKey ''key'' a) = Some ''Basic a2V5Og==''
   \<and> auth (setApiKey (c # cs) a) = Some (''Basic '' @ toString_base64 ((c # cs) @ '':''))
   \<and> url (api_request (setBasePath engine b (setProtocol engine p a)) m path d)
       = protocol (setProtocol engine p a) @ ''://'' @ host a @ '':'' @ format_d (port a)
         @ basePath (setBasePath engine b a) @ path
   \<and> url (api_request (setBasePath engine ''/API/V1'' (Embdr ''k'')) ''GET''
            ''/resources/r1'' [])
       = ''http://embdr.io:80/api/v1/resources/r1''
   \<and> trace (process False it options (init a rt))
       = [Http 0 (api_request a ''POST'' ''/resources''
            (if is_link it then createLink_data (the_string it) (createOptions options)
             else createFile_data it (createOptions options)))]"
proof -
  have l: "toLowerCase_char = lower"
    unfolding lower_def by (rule toLowerCase_char_table)
  have e1: "toLowerCase engine ''/API'' = ''/api''" by code_simp
  have e2: "toLowerCase engine ''HTTPS'' = ''https''" by code_simp
  have e3: "toString_base64 ''Key:'' = ''S2V5Og==''" by code_simp
  have e4: "toString_base64 ''key:'' = ''a2V5Og==''" by code_simp
  have e5: "url (api_request (setBasePath engine ''/API/V1'' (Embdr ''k'')) ''GET''
            ''/resources/r1'' []) = ''http://embdr.io:80/api/v1/resources/r1''"
    by code_simp
  have a1: "list_all ascii = list_all (\<lambda>c. (of_char c :: nat) < 128)"
    by (simp add: ascii_def [abs_def])
  have t: "toLowerCase engine s
             = (if list_all (\<lambda>c. (of_char c :: nat) < 128) s then map lower s else engine s)" for s
    by (simp add: toLowerCase_def l a1)
  have s1: "protocol (setProtocol engine p a)
     = (if list_all (\<lambda>c. (of_char c :: nat) < 128) p then map lower p else engine p)"
    by (simp add: setProtocol_def t)
  have s2: "basePath (setBasePath engine b a)
     = (if list_all (\<lambda>c. (of_char c :: nat) < 128) b then map lower b else engine b)"
    by (simp add: setBasePath_def t)
  have s3: "basePath (setBasePath engine ''/API'' a) = ''/api''"
    by (simp add: setBasePath_def e1)
  have s4: "protocol (setProtocol engine ''HTTPS'' a) = ''https''"
    by (simp add: setProtocol_def e2)
  have s5: "host (setHost engine h po pr a) = h" for h
    by (simp add: setHost_def setApiField_host_def setPort_def setProtocol_def Let_def
        split: option.splits)
  have s6: "port (setHost engine h (Some (Suc n)) pr a) = Suc n"
    "port (setHost engine h None pr a) = port a"
    by (simp_all add: setHost_def setApiField_host_def setPort_def setProtocol_def Let_def
        split: option.splits)
  have s7: "protocol (setHost engine h po (Some ''HTTPS'') a) = ''https''"
    "protocol (setHost engine h po None a) = protocol a"
    by (simp_all add: setHost_def setApiField_host_def setPort_def setProtocol_def Let_def e2
        split: option.splits)
  have s8: "port (setPort n a) = n" "strictSSL (setStrictSSL s a) = Some s"
    by (simp_all add: setPort_def setStrictSSL_def)
  have s9: "auth (setApiKey ''Key'' a) = Some ''Basic S2V5Og==''"
    "auth (setApiKey ''key'' a) = Some ''Basic a2V5Og==''"
    "auth (setApiKey (c # cs) a) = Some (''Basic '' @ toString_base64 ((c # cs) @ '':''))"
    using e3 e4 by (simp_all add: setApiKey_def)
  have s10: "url (api_request (setBasePath engine b (setProtocol engine p a)) m path d)
       = protocol (setProtocol engine p a) @ ''://'' @ host a @ '':'' @ format_d (port a)
         @ basePath (setBasePath engine b a) @ path"
    by (simp add: api_request_def request_url_def Let_def setBasePath_def setProtocol_def)
  have s11: "trace (process False it options (init a rt))
       = [Http 0 (api_request a ''POST'' ''/resources''
            (if is_link it then createLink_data (the_string it) (createOptions options)
             else createFile_data it (createOptions options)))]"
    by (simp add: process_def init_def)
  from s1 s2 s3 s4 s5 s6 s7 s8 s9 s10 e5 s11 show ?thesis
    by (intro conjI)
qed

end
